theory Spec2Isabelle
  imports Main "HOL-Library.Word" "HOL-Library.Sublist"
begin

section \<open>The backup utility (backup\_utility.c)\<close>

text \<open>
  The program is a single C file: \<open>backup_file\<close> opens a source stream for reading and
  a destination stream for writing, moves the bytes through a 1024-byte buffer and closes
  both streams; \<open>main\<close> checks the argument count, calls \<open>backup_file\<close> and prints a
  message. Everything else is the C library and the file system, which are modelled
  here as far as the program uses them.
\<close>

subsection \<open>The file system and the C library\<close>

type_synonym byte = "8 word"
type_synonym path = string

text \<open>The reasons an \<open>fopen\<close> can be refused with, and their \<open>strerror\<close> texts.\<close>

datatype errno = ENOENT | EACCES | EISDIR | ENOTDIR | EROFS

fun strerror :: "errno option \<Rightarrow> string" where
  "strerror None = ''Success''"
| "strerror (Some ENOENT) = ''No such file or directory''"
| "strerror (Some EACCES) = ''Permission denied''"
| "strerror (Some EISDIR) = ''Is a directory''"
| "strerror (Some ENOTDIR) = ''Not a directory''"
| "strerror (Some EROFS) = ''Read-only file system''"

text \<open>The two modes the program opens streams with: \<open>"rb"\<close> and \<open>"wb"\<close>.\<close>

datatype mode = RB | WB

text \<open>
  A \<open>FILE\<close> object: the path it is bound to, its mode and its file position. Streams are
  modelled unbuffered: a byte is in the file as soon as \<open>fwrite\<close> has accepted it.
\<close>

record FILE =
  f_path :: path
  f_mode :: mode
  f_pos :: nat

text \<open>
  Every call into the C library that touches a file leaves an event, with the outcome
  the library reported: for \<open>fopen\<close> the error if it failed, for \<open>fread\<close> the count
  requested, the count delivered and the stream's error indicator, for \<open>fwrite\<close> the
  count requested and the count accepted.
\<close>

datatype event =
    EvOpen path mode "errno option"
  | EvRead path nat nat bool
  | EvWrite path nat nat
  | EvClose path mode

text \<open>
  The world a process is started in. \<open>files\<close> maps each existing path to its contents;
  two paths are two files (links are not modelled), and nothing but the program changes
  a file while it runs.
  \<open>rd_denied p\<close> and \<open>wr_denied p\<close> say why opening \<open>p\<close> for reading (an existing file)
  or for writing is refused, if it is. \<open>rd_fault = Some k\<close> is a device that delivers the
  first \<open>k\<close> bytes of a file and fails on every byte after them; \<open>wr_fault = Some k\<close> is a
  device that accepts \<open>k\<close> bytes of a file and fails on every byte after them (a full
  disk). \<open>None\<close> is a device that never fails.
\<close>

record world =
  files :: "path \<rightharpoonup> byte list"
  rd_denied :: "path \<Rightarrow> errno option"
  wr_denied :: "path \<Rightarrow> errno option"
  rd_fault :: "nat option"
  wr_fault :: "nat option"

text \<open>
  The state of the running process: the world, \<open>errno\<close>, what has been printed on the
  two standard streams, the streams the program holds open, and the events so far.
\<close>

record state = world +
  errno :: "errno option"
  stdout :: string
  stderr :: string
  opened :: "(path \<times> mode) list"
  events :: "event list"

definition start :: "world \<Rightarrow> state" where
  "start w =
     \<lparr>files = files w, rd_denied = rd_denied w, wr_denied = wr_denied w,
      rd_fault = rd_fault w, wr_fault = wr_fault w,
      errno = None, stdout = [], stderr = [], opened = [], events = []\<rparr>"

definition EXIT_SUCCESS :: int where
  "EXIT_SUCCESS = 0"

definition EXIT_FAILURE :: int where
  "EXIT_FAILURE = 1"

text \<open>\<open>open_error p m w\<close> is the error \<open>fopen(p, m)\<close> fails with in \<open>w\<close>, if it fails.\<close>

definition open_error :: "path \<Rightarrow> mode \<Rightarrow> 'a world_scheme \<Rightarrow> errno option" where
  "open_error p m w =
     (case m of
        RB \<Rightarrow> (case files w p of None \<Rightarrow> Some ENOENT | Some c \<Rightarrow> rd_denied w p)
      | WB \<Rightarrow> wr_denied w p)"

text \<open>
  \<open>fopen\<close>: on failure \<open>NULL\<close> (here \<open>None\<close>) with \<open>errno\<close> set and the file system as it
  was; on success a stream at position 0, and in mode \<open>"wb"\<close> the file is created or
  truncated to length zero.
\<close>

definition fopen :: "path \<Rightarrow> mode \<Rightarrow> state \<Rightarrow> FILE option \<times> state" where
  "fopen p m s =
     (case open_error p m s of
        Some e \<Rightarrow>
          (None, s\<lparr>errno := Some e, events := events s @ [EvOpen p m (Some e)]\<rparr>)
      | None \<Rightarrow>
          (Some \<lparr>f_path = p, f_mode = m, f_pos = 0\<rparr>,
           s\<lparr>files := (case m of RB \<Rightarrow> files s | WB \<Rightarrow> (files s)(p \<mapsto> [])),
             opened := opened s @ [(p, m)],
             events := events s @ [EvOpen p m None]\<rparr>))"

definition fclose :: "FILE \<Rightarrow> state \<Rightarrow> state" where
  "fclose f s =
     s\<lparr>opened := remove1 (f_path f, f_mode f) (opened s),
       events := events s @ [EvClose (f_path f) (f_mode f)]\<rparr>"

text \<open>The contents of the file at a path (nothing, if there is no such file).\<close>

definition contents :: "'a world_scheme \<Rightarrow> path \<Rightarrow> byte list" where
  "contents w p = (case files w p of None \<Rightarrow> [] | Some c \<Rightarrow> c)"

text \<open>The part of a file's contents that the device delivers.\<close>

definition deliverable :: "'a world_scheme \<Rightarrow> path \<Rightarrow> byte list" where
  "deliverable w p =
     (case rd_fault w of None \<Rightarrow> contents w p | Some k \<Rightarrow> take k (contents w p))"

text \<open>
  \<open>fread(buffer, 1, n, f)\<close>: up to \<open>n\<close> bytes from the stream's position. The count is
  short only at the end of the file or at a read error; the error indicator is set when
  the file has bytes after the ones delivered. The result is the count, the bytes now in
  the buffer, the advanced stream and the state.
\<close>

definition fread :: "nat \<Rightarrow> FILE \<Rightarrow> state \<Rightarrow> nat \<times> byte list \<times> FILE \<times> state" where
  "fread n f s =
     (let data = take n (drop (f_pos f) (deliverable s (f_path f)));
          failed = (length data < n \<and> f_pos f + length data < length (contents s (f_path f)))
      in (length data, data, f\<lparr>f_pos := f_pos f + length data\<rparr>,
          s\<lparr>events := events s @ [EvRead (f_path f) n (length data) failed]\<rparr>))"

text \<open>Writing \<open>data\<close> into a file's contents at an offset (a gap is filled with zeros).\<close>

definition write_at :: "nat \<Rightarrow> byte list \<Rightarrow> byte list \<Rightarrow> byte list" where
  "write_at pos data c =
     (if data = [] then c
      else take pos c @ replicate (pos - length c) 0 @ data @ drop (pos + length data) c)"

text \<open>
  \<open>fwrite(buffer, 1, n, f)\<close>: the first \<open>n\<close> bytes of the buffer go to the file at the
  stream's position, as many of them as the device accepts. The result is the count
  accepted, the advanced stream and the state.
\<close>

definition fwrite :: "byte list \<Rightarrow> nat \<Rightarrow> FILE \<Rightarrow> state \<Rightarrow> nat \<times> FILE \<times> state" where
  "fwrite buffer n f s =
     (let room = (case wr_fault s of None \<Rightarrow> n | Some k \<Rightarrow> min n (k - f_pos f));
          data = take room (take n buffer)
      in (length data, f\<lparr>f_pos := f_pos f + length data\<rparr>,
          s\<lparr>files := (files s)(f_path f \<mapsto> write_at (f_pos f) data (contents s (f_path f))),
            events := events s @ [EvWrite (f_path f) n (length data)]\<rparr>))"

text \<open>\<open>perror(msg)\<close>: the message, a colon, the text of \<open>errno\<close> and a newline on stderr.\<close>

definition perror :: "string \<Rightarrow> state \<Rightarrow> state" where
  "perror msg s = s\<lparr>stderr := stderr s @ msg @ '': '' @ strerror (errno s) @ [CHR 0x0A]\<rparr>"

subsection \<open>The program\<close>

text \<open>\<open>char buffer[1024]\<close>, so \<open>sizeof(buffer)\<close> is 1024.\<close>

definition sizeof_buffer :: nat where
  "sizeof_buffer = 1024"

text \<open>
  The copy loop of \<open>backup_file\<close>:
  \<^verbatim>\<open>while ((bytesRead = fread(buffer, 1, sizeof(buffer), srcFile)) > 0)
      fwrite(buffer, 1, bytesRead, destFile);\<close>
  The result of \<open>fwrite\<close> is not looked at, and a short count of \<open>fread\<close> is not told
  apart from the end of the file. \<open>bytesRead\<close> is a \<open>size_t\<close> that never exceeds 1024, so
  it is a \<open>nat\<close> here. The loop is a partial function: \<open>None\<close> is a loop that never ends.
\<close>

partial_function (option) copy_loop :: "FILE \<Rightarrow> FILE \<Rightarrow> state \<Rightarrow> (FILE \<times> FILE \<times> state) option" where
  "copy_loop srcFile destFile s =
     (case fread sizeof_buffer srcFile s of
        (bytesRead, buffer, srcFile1, s1) \<Rightarrow>
          if bytesRead > 0
          then (case fwrite buffer bytesRead destFile s1 of
                  (written, destFile1, s2) \<Rightarrow> copy_loop srcFile1 destFile1 s2)
          else Some (srcFile1, destFile, s1))"

text \<open>
  \<open>backup_file\<close>. \<open>Inl c\<close> is the process ended by \<open>exit(c)\<close> inside the function,
  \<open>Inr ()\<close> is the function returning to its caller.
\<close>

definition backup_file :: "path \<Rightarrow> path \<Rightarrow> state \<Rightarrow> ((int + unit) \<times> state) option" where
  "backup_file source destination s =
     (case fopen source RB s of
        (None, s1) \<Rightarrow> Some (Inl EXIT_FAILURE, perror ''Failed to open source file'' s1)
      | (Some srcFile, s1) \<Rightarrow>
          (case fopen destination WB s1 of
             (None, s2) \<Rightarrow>
               Some (Inl EXIT_FAILURE,
                     fclose srcFile (perror ''Failed to open destination file'' s2))
           | (Some destFile, s2) \<Rightarrow>
               (case copy_loop srcFile destFile s2 of
                  None \<Rightarrow> None
                | Some (srcFile1, destFile1, s3) \<Rightarrow>
                    Some (Inr (), fclose destFile1 (fclose srcFile1 s3)))))"

text \<open>
  \<open>argv[0]\<close> as \<open>%s\<close> prints it. With \<open>argc = 0\<close> the pointer is \<open>NULL\<close>, which glibc
  prints as \<open>(null)\<close>.
\<close>

definition argv0 :: "string list \<Rightarrow> string" where
  "argv0 argv = (case argv of [] \<Rightarrow> ''(null)'' | a # as \<Rightarrow> a)"

text \<open>\<open>main\<close>, with \<open>argc = length argv\<close>; the result is the exit status and the final state.\<close>

definition main :: "string list \<Rightarrow> state \<Rightarrow> (int \<times> state) option" where
  "main argv s =
     (if length argv \<noteq> 3
      then Some (EXIT_FAILURE,
                 s\<lparr>stderr := stderr s @ ''Usage: '' @ argv0 argv
                                @ '' <source_file> <destination_file>'' @ [CHR 0x0A]\<rparr>)
      else (case backup_file (argv ! 1) (argv ! 2) s of
              None \<Rightarrow> None
            | Some (Inl c, s1) \<Rightarrow> Some (c, s1)
            | Some (Inr u, s1) \<Rightarrow>
                Some (EXIT_SUCCESS,
                      s1\<lparr>stdout := stdout s1 @ ''Backup successful from '' @ argv ! 1
                                      @ '' to '' @ argv ! 2 @ [CHR 0x0A]\<rparr>)))"

text \<open>One invocation of the program: \<open>main\<close> in a freshly started process.\<close>

definition run :: "string list \<Rightarrow> world \<Rightarrow> (int \<times> state) option" where
  "run argv w = main argv (start w)"

subsection \<open>What can be observed of a run\<close>

text \<open>
  The state in which \<open>backup_file\<close> enters its loop: both streams open. \<open>None\<close> when
  one of the two \<open>fopen\<close> calls fails.
\<close>

definition loop_entry :: "path \<Rightarrow> path \<Rightarrow> state \<Rightarrow> (FILE \<times> FILE \<times> state) option" where
  "loop_entry source destination s =
     (case fopen source RB s of
        (None, s1) \<Rightarrow> None
      | (Some srcFile, s1) \<Rightarrow>
          (case fopen destination WB s1 of
             (None, s2) \<Rightarrow> None
           | (Some destFile, s2) \<Rightarrow> Some (srcFile, destFile, s2)))"


text \<open>
  An event is a failure when the library reported one: an \<open>fopen\<close> that returned
  \<open>NULL\<close>, an \<open>fread\<close> that set the error indicator, an \<open>fwrite\<close> that accepted fewer
  bytes than it was given.
\<close>

fun ev_failed :: "event \<Rightarrow> bool" where
  "ev_failed (EvOpen p m r) = (r \<noteq> None)"
| "ev_failed (EvRead p n k e) = e"
| "ev_failed (EvWrite p n k) = (k < n)"
| "ev_failed (EvClose p m) = False"

definition io_failed :: "state \<Rightarrow> bool" where
  "io_failed s = list_ex ev_failed (events s)"


text \<open>Bytes delivered by \<open>fread\<close>, bytes handed to \<open>fwrite\<close>, bytes accepted by \<open>fwrite\<close>.\<close>

fun ev_read :: "event \<Rightarrow> nat" where
  "ev_read (EvRead p n k e) = k"
| "ev_read e = 0"

fun ev_requested :: "event \<Rightarrow> nat" where
  "ev_requested (EvWrite p n k) = n"
| "ev_requested e = 0"

fun ev_written :: "event \<Rightarrow> nat" where
  "ev_written (EvWrite p n k) = k"
| "ev_written e = 0"

definition bytes_read :: "event list \<Rightarrow> nat" where
  "bytes_read es = sum_list (map ev_read es)"

definition bytes_requested :: "event list \<Rightarrow> nat" where
  "bytes_requested es = sum_list (map ev_requested es)"

definition bytes_written :: "event list \<Rightarrow> nat" where
  "bytes_written es = sum_list (map ev_written es)"



text \<open>
  What a test harness can read off a finished run: the exit status, a component of
  the final state, and the contents of a file in it.
\<close>

definition exit_status :: "(int \<times> state) option \<Rightarrow> int option" where
  "exit_status r = map_option fst r"

definition final :: "(state \<Rightarrow> 'a) \<Rightarrow> (int \<times> state) option \<Rightarrow> 'a option" where
  "final f r = map_option (f \<circ> snd) r"

definition file_at :: "path \<Rightarrow> state \<Rightarrow> byte list option" where
  "file_at p s = files s p"

subsection \<open>Worlds to run the program in\<close>

text \<open>
  Small worlds for running the program on concrete inputs: one file of three bytes; the
  same with every open for writing refused; the same on a device that accepts two bytes;
  the same on a device that delivers two bytes; a second, longer file at the destination;
  a file of twice the buffer size.
\<close>

definition world_one :: world where
  "world_one =
     \<lparr>files = [''a'' \<mapsto> [1, 2, 3]], rd_denied = (\<lambda>p. None), wr_denied = (\<lambda>p. None),
      rd_fault = None, wr_fault = None\<rparr>"

definition world_readonly :: world where
  "world_readonly =
     \<lparr>files = [''a'' \<mapsto> [1, 2, 3]], rd_denied = (\<lambda>p. None), wr_denied = (\<lambda>p. Some EACCES),
      rd_fault = None, wr_fault = None\<rparr>"


definition world_bad_sector :: world where
  "world_bad_sector =
     \<lparr>files = [''a'' \<mapsto> [1, 2, 3]], rd_denied = (\<lambda>p. None), wr_denied = (\<lambda>p. None),
      rd_fault = Some 2, wr_fault = None\<rparr>"

definition world_existing :: world where
  "world_existing =
     \<lparr>files = [''a'' \<mapsto> [1, 2, 3], ''b'' \<mapsto> [9, 9, 9, 9, 9]], rd_denied = (\<lambda>p. None),
      wr_denied = (\<lambda>p. None), rd_fault = None, wr_fault = None\<rparr>"


subsection \<open>The loop's entry state and invariant\<close>

text \<open>
  A stream as \<open>fopen\<close> returns it, and the state in which the loop is entered when
  both streams were opened in a freshly started process.
\<close>

abbreviation opened_for :: "path \<Rightarrow> mode \<Rightarrow> FILE" where
  "opened_for p m \<equiv> \<lparr>f_path = p, f_mode = m, f_pos = 0\<rparr>"

abbreviation entered :: "path \<Rightarrow> path \<Rightarrow> world \<Rightarrow> state" where
  "entered src dst w \<equiv>
     (start w)\<lparr>files := (files w)(dst \<mapsto> []), opened := [(src, RB), (dst, WB)],
       events := [EvOpen src RB None, EvOpen dst WB None]\<rparr>"


section \<open>Properties\<close>

subsection \<open>The library calls\<close>

lemma fread_elim:
  "fread n f s = (k, buf, f1, s1) \<Longrightarrow>
     buf = take n (drop (f_pos f) (deliverable s (f_path f))) \<and> k = length buf \<and>
     f1 = f\<lparr>f_pos := f_pos f + k\<rparr> \<and>
     s1 = s\<lparr>events := events s @ [EvRead (f_path f) n k
             (k < n \<and> f_pos f + k < length (contents s (f_path f)))]\<rparr>"
  by (auto simp: fread_def Let_def)

lemma fwrite_elim:
  "fwrite buf n f s = (k, f1, s1) \<Longrightarrow>
     k = length (take (case wr_fault s of None \<Rightarrow> n | Some c \<Rightarrow> min n (c - f_pos f)) (take n buf)) \<and>
     f1 = f\<lparr>f_pos := f_pos f + k\<rparr> \<and>
     s1 = s\<lparr>files := (files s)(f_path f \<mapsto>
              write_at (f_pos f)
                (take (case wr_fault s of None \<Rightarrow> n | Some c \<Rightarrow> min n (c - f_pos f)) (take n buf))
                (contents s (f_path f))),
            events := events s @ [EvWrite (f_path f) n k]\<rparr>"
  by (auto simp: fwrite_def Let_def)

lemma contents_Some: "files s p = Some c \<Longrightarrow> contents s p = c"
  by (simp add: contents_def)

lemma write_at_end: "write_at (length c) data c = c @ data"
  by (simp add: write_at_def)

text \<open>
  What \<open>fread\<close> delivers is a piece of the file's contents, also on a faulty device.
\<close>

lemma chunk_of_contents:
  assumes "buf = take n (drop p (deliverable s q))"
  shows "buf = take (length buf) (drop p (contents s q))"
proof (cases "rd_fault s")
  case None
  then have "buf = take n (drop p (contents s q))"
    using assms by (simp add: deliverable_def)
  then show ?thesis by (simp add: min_def)
next
  case (Some k)
  then have "buf = take (min n (k - p)) (drop p (contents s q))"
    using assms by (simp add: deliverable_def drop_take min.commute)
  then show ?thesis by (simp add: min_def)
qed

lemma start_simps:
  "files (start w) = files w" "rd_denied (start w) = rd_denied w"
  "wr_denied (start w) = wr_denied w" "rd_fault (start w) = rd_fault w"
  "wr_fault (start w) = wr_fault w" "errno (start w) = None" "stdout (start w) = []"
  "stderr (start w) = []" "opened (start w) = []" "events (start w) = []"
  by (simp_all add: start_def)

lemma open_error_start: "open_error p m (start w) = open_error p m w"
  by (cases m) (simp_all add: open_error_def start_simps cong: option.case_cong)

lemma fopen_fail:
  "open_error p m s = Some e \<Longrightarrow>
   fopen p m s = (None, s\<lparr>errno := Some e, events := events s @ [EvOpen p m (Some e)]\<rparr>)"
  by (simp add: fopen_def)

lemma fopen_RB_ok:
  "open_error p RB s = None \<Longrightarrow>
   fopen p RB s = (Some \<lparr>f_path = p, f_mode = RB, f_pos = 0\<rparr>,
                   s\<lparr>opened := opened s @ [(p, RB)], events := events s @ [EvOpen p RB None]\<rparr>)"
  by (simp add: fopen_def)

lemma fopen_WB_ok:
  "open_error p WB s = None \<Longrightarrow>
   fopen p WB s = (Some \<lparr>f_path = p, f_mode = WB, f_pos = 0\<rparr>,
                   s\<lparr>files := (files s)(p \<mapsto> []), opened := opened s @ [(p, WB)],
                     events := events s @ [EvOpen p WB None]\<rparr>)"
  by (simp add: fopen_def)

lemma list_ex_append: "list_ex P (xs @ ys) = (list_ex P xs \<or> list_ex P ys)"
  by (induction xs) simp_all




subsection \<open>The loop\<close>

lemma copy_loop_exit:
  "fread sizeof_buffer sf s = (0, buf, sf1, s1) \<Longrightarrow> copy_loop sf df s = Some (sf1, df, s1)"
  by (subst copy_loop.simps) simp

lemma copy_loop_step:
  "fread sizeof_buffer sf s = (n, buf, sf1, s1) \<Longrightarrow> 0 < n \<Longrightarrow> fwrite buf n df s1 = (k, df1, s2) \<Longrightarrow>
   copy_loop sf df s = copy_loop sf1 df1 s2"
  by (subst copy_loop.simps) simp

text \<open>
  The loop ends when its two streams are on different files: every iteration moves the
  source stream forward in a file that the writes do not touch. The rule proves a
  property \<open>P\<close> of the loop's result along with that: \<open>P\<close> has to hold when the loop ends
  at once, and to carry over from the rest of the loop to the whole.
\<close>

lemma copy_loop_rule:
  assumes distinct: "f_path sf \<noteq> f_path df"
  assumes exit: "\<And>sf df s buf sf1 s1.
      f_path sf \<noteq> f_path df \<Longrightarrow> fread sizeof_buffer sf s = (0, buf, sf1, s1) \<Longrightarrow>
      P sf df s (sf1, df, s1)"
  assumes step: "\<And>sf df s n buf sf1 s1 k df1 s2 r.
      f_path sf \<noteq> f_path df \<Longrightarrow> fread sizeof_buffer sf s = (n, buf, sf1, s1) \<Longrightarrow> 0 < n \<Longrightarrow>
      fwrite buf n df s1 = (k, df1, s2) \<Longrightarrow> P sf1 df1 s2 r \<Longrightarrow> P sf df s r"
  shows "\<exists>r. copy_loop sf df s = Some r \<and> P sf df s r"
  using distinct
proof (induction "length (deliverable s (f_path sf)) - f_pos sf" arbitrary: sf df s rule: less_induct)
  case less
  obtain n buf sf1 s1 where rd: "fread sizeof_buffer sf s = (n, buf, sf1, s1)"
    by (metis prod_cases4)
  note re = fread_elim [OF rd]
  show ?case
  proof (cases "0 < n")
    case False
    then have n0: "n = 0" by simp
    have "copy_loop sf df s = Some (sf1, df, s1)"
      using rd unfolding n0 by (rule copy_loop_exit)
    moreover have "P sf df s (sf1, df, s1)"
      using less.prems rd unfolding n0 by (rule exit)
    ultimately show ?thesis by blast
  next
    case True
    obtain k df1 s2 where wr: "fwrite buf n df s1 = (k, df1, s2)"
      by (metis prod_cases3)
    note we = fwrite_elim [OF wr]
    have unf: "copy_loop sf df s = copy_loop sf1 df1 s2"
      using rd True wr by (rule copy_loop_step)
    have p1: "f_path sf1 = f_path sf" and pos1: "f_pos sf1 = f_pos sf + n"
      using re by simp_all
    have p2: "f_path df1 = f_path df" using we by simp
    have fl: "files s2 (f_path sf) = files s (f_path sf)"
      using re we less.prems by simp
    have rf: "rd_fault s2 = rd_fault s"
      using re we by simp
    have del: "deliverable s2 (f_path sf1) = deliverable s (f_path sf)"
      unfolding deliverable_def contents_def using fl rf p1 by (simp cong: option.case_cong)
    have "n \<le> length (deliverable s (f_path sf)) - f_pos sf"
      using re by simp
    with True have dec: "length (deliverable s2 (f_path sf1)) - f_pos sf1
         < length (deliverable s (f_path sf)) - f_pos sf"
      using del pos1 by simp
    have d1: "f_path sf1 \<noteq> f_path df1" using p1 p2 less.prems by simp
    from less.hyps [OF dec d1] obtain r where r: "copy_loop sf1 df1 s2 = Some r" "P sf1 df1 s2 r"
      by blast
    from step [OF less.prems rd True wr r(2)] r(1) unf show ?thesis by simp
  qed
qed

text \<open>
  With both streams on one file, which the opening for writing has emptied, the first
  \<open>fread\<close> delivers nothing and the loop ends at once.
\<close>

lemma loop_alias:
  assumes "f_path sf = f_path df" and "files s (f_path df) = Some []"
  shows "copy_loop sf df s =
     Some (sf, df, s\<lparr>events := events s @ [EvRead (f_path sf) sizeof_buffer 0 False]\<rparr>)"
proof -
  have "fread sizeof_buffer sf s =
     (0, [], sf, s\<lparr>events := events s @ [EvRead (f_path sf) sizeof_buffer 0 False]\<rparr>)"
    using assms by (simp add: fread_def deliverable_def contents_def split: option.splits)
  then show ?thesis by (rule copy_loop_exit)
qed

text \<open>
  The loop changes no file but the destination, prints nothing and opens and closes
  nothing.
\<close>

lemma loop_frame:
  assumes "f_path sf \<noteq> f_path df"
  shows "\<exists>r. copy_loop sf df s = Some r \<and>
     (case r of (sf', df', s') \<Rightarrow>
        f_path sf' = f_path sf \<and> f_mode sf' = f_mode sf \<and>
        f_path df' = f_path df \<and> f_mode df' = f_mode df \<and>
        stdout s' = stdout s \<and> stderr s' = stderr s \<and> opened s' = opened s \<and>
        (\<forall>p. p \<noteq> f_path df \<longrightarrow> files s' p = files s p))"
proof (rule copy_loop_rule [OF assms], goal_cases)
  case (1 sf df s buf sf1 s1)
  from fread_elim [OF 1(2)] show ?case by simp
next
  case (2 sf df s n buf sf1 s1 k df1 s2 r)
  note re = fread_elim [OF 2(2)] and we = fwrite_elim [OF 2(4)]
  obtain sf' df' s' where r: "r = (sf', df', s')" by (cases r)
  from 2(5) re we show ?case unfolding r by simp
qed


text \<open>
  When the destination holds what has been read so far and no call fails from here on,
  it holds the whole source at the end.
\<close>

lemma loop_copy:
  assumes "f_path sf \<noteq> f_path df"
  shows "\<exists>r. copy_loop sf df s = Some r \<and>
     (case r of (sf', df', s') \<Rightarrow>
        (\<exists>E. events s' = events s @ E \<and>
          (\<forall>content. files s (f_path sf) = Some content \<and>
             files s (f_path df) = Some (take (f_pos sf) content) \<and>
             f_pos df = f_pos sf \<and> f_pos sf \<le> length content \<longrightarrow>
             \<not> list_ex ev_failed E \<longrightarrow> files s' (f_path df) = Some content)))"
proof (rule copy_loop_rule [OF assms], goal_cases)
  case (1 sf df s buf sf1 s1)
  from fread_elim [OF 1(2)] show ?case
    by (auto simp: contents_Some sizeof_buffer_def)
next
  case (2 sf df s n buf sf1 s1 k df1 s2 r)
  note re = fread_elim [OF 2(2)] and we = fwrite_elim [OF 2(4)]
  obtain sf' df' s' where r: "r = (sf', df', s')" by (cases r)
  have p1: "f_path sf1 = f_path sf" "f_pos sf1 = f_pos sf + n" using re by simp_all
  have p2: "f_path df1 = f_path df" "f_pos df1 = f_pos df + k" using we by simp_all
  from 2(5) obtain E where E: "events s' = events s2 @ E"
    and IH: "\<And>content. files s2 (f_path sf) = Some content \<Longrightarrow>
             files s2 (f_path df) = Some (take (f_pos sf + n) content) \<Longrightarrow>
             f_pos df + k = f_pos sf + n \<Longrightarrow> f_pos sf + n \<le> length content \<Longrightarrow>
             \<not> list_ex ev_failed E \<Longrightarrow> files s' (f_path df) = Some content"
    unfolding r p1 p2 by auto
  let ?R = "EvRead (f_path sf) sizeof_buffer n
       (n < sizeof_buffer \<and> f_pos sf + n < length (contents s (f_path sf)))"
  let ?E = "[?R, EvWrite (f_path df) n k] @ E"
  have ev2: "events s2 = events s @ [?R, EvWrite (f_path df) n k]"
    using re we by simp
  have a: "events s' = events s @ ?E" using E ev2 by simp
  have b: "files s' (f_path df) = Some content"
    if inv: "files s (f_path sf) = Some content" "files s (f_path df) = Some (take (f_pos sf) content)"
       "f_pos df = f_pos sf" "f_pos sf \<le> length content"
      and ok: "\<not> list_ex ev_failed ?E" for content
  proof -
    have kn: "k = n" and okE: "\<not> list_ex ev_failed E"
      using ok we by auto
    have c1: "contents s (f_path sf) = content" using inv(1) by (rule contents_Some)
    have nb: "n = length buf" using re by blast
    have b0: "buf = take sizeof_buffer (drop (f_pos sf) (deliverable s (f_path sf)))"
      using re by blast
    have "buf = take (length buf) (drop (f_pos sf) (contents s (f_path sf)))"
      by (rule chunk_of_contents [OF b0])
    then have buf: "buf = take n (drop (f_pos sf) content)"
      unfolding c1 nb [symmetric] .
    have nle: "f_pos sf + n \<le> length content"
      using buf nb inv(4) by (metis add.commute le_diff_conv2 length_drop length_take min.cobounded1)
    have data: "take (case wr_fault s1 of None \<Rightarrow> n | Some c \<Rightarrow> min n (c - f_pos df)) (take n buf) = buf"
      using we kn nb by (metis (lifting) append_eq_conv_conj append_take_drop_id length_take take_all_iff order_refl)
    have cd: "contents s1 (f_path df) = take (f_pos sf) content"
      using re inv(2) by (simp add: contents_def)
    have lp: "f_pos df = length (take (f_pos sf) content)" using inv(3,4) by simp
    have "files s2 (f_path df) = Some (write_at (f_pos df) buf (take (f_pos sf) content))"
      using we data cd by simp
    also have "write_at (f_pos df) buf (take (f_pos sf) content) = take (f_pos sf) content @ buf"
      unfolding lp by (rule write_at_end)
    also have "\<dots> = take (f_pos sf + n) content"
      unfolding buf by (simp add: take_add)
    finally have f2: "files s2 (f_path df) = Some (take (f_pos sf + n) content)" .
    have f1: "files s2 (f_path sf) = Some content"
      using re we inv(1) 2(1) by simp
    show ?thesis
      using IH [OF f1 f2 _ nle okE] kn inv(3) by simp
  qed
  show ?case unfolding r using a b by blast
qed







subsection \<open>Whole runs\<close>

text \<open>
  The three ways a run ends without copying, with the final state written out.
\<close>

lemma run_usage:
  "length argv \<noteq> 3 \<Longrightarrow>
   run argv w = Some (EXIT_FAILURE,
     (start w)\<lparr>stderr := ''Usage: '' @ argv0 argv @ '' <source_file> <destination_file>'' @ [CHR 0x0A]\<rparr>)"
  by (simp add: run_def main_def start_def)

lemma run_source_fails:
  assumes "open_error src RB w = Some e"
  shows "run [prog, src, dst] w = Some (EXIT_FAILURE,
     (start w)\<lparr>errno := Some e, events := [EvOpen src RB (Some e)],
       stderr := ''Failed to open source file: '' @ strerror (Some e) @ [CHR 0x0A]\<rparr>)"
proof -
  have "open_error src RB (start w) = Some e" using assms by (simp add: open_error_start)
  then show ?thesis
    by (simp add: run_def main_def backup_file_def fopen_fail perror_def) (simp add: start_def)
qed

lemma run_destination_fails:
  assumes "open_error src RB w = None" and "open_error dst WB w = Some e"
  shows "run [prog, src, dst] w = Some (EXIT_FAILURE,
     (start w)\<lparr>errno := Some e,
       events := [EvOpen src RB None, EvOpen dst WB (Some e), EvClose src RB],
       stderr := ''Failed to open destination file: '' @ strerror (Some e) @ [CHR 0x0A]\<rparr>)"
proof -
  have a: "open_error src RB (start w) = None" using assms(1) by (simp add: open_error_start)
  have b: "open_error dst WB ((start w)\<lparr>opened := opened (start w) @ [(src, RB)],
        events := events (start w) @ [EvOpen src RB None]\<rparr>) = Some e"
    using assms(2) by (simp add: open_error_def start_simps)
  show ?thesis
    by (simp add: run_def main_def backup_file_def fopen_RB_ok [OF a] fopen_fail [OF b]
          perror_def fclose_def) (simp add: start_def)
qed

text \<open>
  The run that enters the loop.
\<close>

lemma loop_entry_ok:
  assumes "open_error src RB w = None" and "open_error dst WB w = None"
  shows "loop_entry src dst (start w) =
     Some (\<lparr>f_path = src, f_mode = RB, f_pos = 0\<rparr>, \<lparr>f_path = dst, f_mode = WB, f_pos = 0\<rparr>,
           (start w)\<lparr>files := (files w)(dst \<mapsto> []), opened := [(src, RB), (dst, WB)],
             events := [EvOpen src RB None, EvOpen dst WB None]\<rparr>)"
proof -
  have a: "open_error src RB (start w) = None" using assms(1) by (simp add: open_error_start)
  have b: "open_error dst WB ((start w)\<lparr>opened := opened (start w) @ [(src, RB)],
        events := events (start w) @ [EvOpen src RB None]\<rparr>) = None"
    using assms(2) by (simp add: open_error_def start_simps)
  show ?thesis
    by (simp add: loop_entry_def fopen_RB_ok [OF a] fopen_WB_ok [OF b]) (simp add: start_def)
qed

lemma loop_entry_None:
  "open_error src RB w = Some e \<Longrightarrow> loop_entry src dst (start w) = None"
  "open_error src RB w = None \<Longrightarrow> open_error dst WB w = Some e \<Longrightarrow>
   loop_entry src dst (start w) = None"
proof -
  show "loop_entry src dst (start w) = None" if "open_error src RB w = Some e"
  proof -
    have "open_error src RB (start w) = Some e" using that by (simp add: open_error_start)
    then show ?thesis by (simp add: loop_entry_def fopen_fail)
  qed
  show "loop_entry src dst (start w) = None"
    if "open_error src RB w = None" "open_error dst WB w = Some e"
  proof -
    have a: "open_error src RB (start w) = None" using that(1) by (simp add: open_error_start)
    have b: "open_error dst WB ((start w)\<lparr>opened := opened (start w) @ [(src, RB)],
        events := events (start w) @ [EvOpen src RB None]\<rparr>) = Some e"
      using that(2) by (simp add: open_error_def start_simps)
    show ?thesis by (simp add: loop_entry_def fopen_RB_ok [OF a] fopen_fail [OF b])
  qed
qed

lemma backup_file_loop:
  assumes "loop_entry source destination s = Some (sf, df, s2)"
  shows "backup_file source destination s =
     (case copy_loop sf df s2 of
        None \<Rightarrow> None
      | Some (sf', df', s3) \<Rightarrow> Some (Inr (), fclose df' (fclose sf' s3)))"
  using assms by (auto simp: loop_entry_def backup_file_def split: prod.splits option.splits)

lemma run_loop:
  assumes "loop_entry src dst (start w) = Some (sf, df, s2)"
    and "copy_loop sf df s2 = Some (sf', df', s3)"
  shows "run [prog, src, dst] w =
     Some (EXIT_SUCCESS,
       (fclose df' (fclose sf' s3))\<lparr>stdout := stdout s3 @ ''Backup successful from '' @ src
          @ '' to '' @ dst @ [CHR 0x0A]\<rparr>)"
  by (simp add: run_def main_def backup_file_loop [OF assms(1)] assms(2) fclose_def)

lemma run_copy:
  assumes "open_error src RB w = None" and "open_error dst WB w = None"
  shows "\<exists>sf' df' s3 s'.
     copy_loop (opened_for src RB) (opened_for dst WB) (entered src dst w) = Some (sf', df', s3) \<and>
     run [prog, src, dst] w = Some (EXIT_SUCCESS, s') \<and>
     stdout s' = ''Backup successful from '' @ src @ '' to '' @ dst @ [CHR 0x0A] \<and>
     stderr s' = [] \<and> opened s' = [] \<and> files s' = files s3 \<and>
     events s' = events s3 @ [EvClose src RB, EvClose dst WB] \<and>
     (\<forall>p. p \<noteq> dst \<longrightarrow> files s3 p = files w p)"
proof -
  let ?sf = "opened_for src RB" and ?df = "opened_for dst WB" and ?s2 = "entered src dst w"
  note entry = loop_entry_ok [OF assms]
  have "\<exists>sf' df' s3. copy_loop ?sf ?df ?s2 = Some (sf', df', s3) \<and>
          f_path sf' = src \<and> f_mode sf' = RB \<and> f_path df' = dst \<and> f_mode df' = WB \<and>
          stdout s3 = [] \<and> stderr s3 = [] \<and> opened s3 = [(src, RB), (dst, WB)] \<and>
          (\<forall>p. p \<noteq> dst \<longrightarrow> files s3 p = files w p)"
  proof (cases "src = dst")
    case True
    have "copy_loop ?sf ?df ?s2 =
       Some (?sf, ?df, ?s2\<lparr>events := events ?s2 @ [EvRead (f_path ?sf) sizeof_buffer 0 False]\<rparr>)"
      by (rule loop_alias) (simp_all add: True)
    then show ?thesis by (simp add: start_simps)
  next
    case False
    then have "f_path ?sf \<noteq> f_path ?df" by simp
    from loop_frame [OF this, of ?s2] show ?thesis
      by (auto simp: start_simps)
  qed
  then obtain sf' df' s3 where l: "copy_loop ?sf ?df ?s2 = Some (sf', df', s3)"
    and p: "f_path sf' = src" "f_mode sf' = RB" "f_path df' = dst" "f_mode df' = WB"
    and o: "stdout s3 = []" "stderr s3 = []" "opened s3 = [(src, RB), (dst, WB)]"
    and f: "\<forall>p. p \<noteq> dst \<longrightarrow> files s3 p = files w p"
    by blast
  note r = run_loop [OF entry l, of prog]
  show ?thesis
    using l f unfolding r by (simp add: fclose_def p o)
qed

text \<open>
  The program ends on every input.
\<close>

lemma run_total: "\<exists>c s'. run argv w = Some (c, s')"
proof (cases "length argv = 3")
  case False
  then show ?thesis by (simp add: run_usage)
next
  case True
  then obtain prog src dst where argv: "argv = [prog, src, dst]"
    by (metis (no_types, opaque_lifting) length_0_conv length_Suc_conv numeral_3_eq_3)
  show ?thesis
  proof (cases "open_error src RB w")
    case (Some e)
    then show ?thesis unfolding argv by (simp add: run_source_fails)
  next
    case None
    show ?thesis
    proof (cases "open_error dst WB w")
      case (Some e)
      with None show ?thesis unfolding argv by (simp add: run_destination_fails)
    next
      case None2: None
      from run_copy [OF None None2, of prog] show ?thesis unfolding argv by blast
    qed
  qed
qed

text \<open>
  Between two different paths, a run in which no call fails leaves the source's bytes
  in the destination; and no call fails when both files open and the devices have no
  fault.
\<close>

lemma copy_round_trip:
  assumes "src \<noteq> dst" and "files w src = Some content"
  shows "\<exists>c s'. run [prog, src, dst] w = Some (c, s') \<and>
     (\<not> io_failed s' \<longrightarrow> files s' dst = Some content \<and> files s' src = Some content)"
proof (cases "open_error src RB w")
  case (Some e)
  show ?thesis unfolding run_source_fails [OF Some] by (simp add: io_failed_def)
next
  case None
  show ?thesis
  proof (cases "open_error dst WB w")
    case (Some e)
    show ?thesis unfolding run_destination_fails [OF None Some] by (simp add: io_failed_def)
  next
    case None2: None
    let ?sf = "opened_for src RB" and ?df = "opened_for dst WB" and ?s2 = "entered src dst w"
    from run_copy [OF None None2, of prog] obtain sf' df' s3 s' where
      l: "copy_loop ?sf ?df ?s2 = Some (sf', df', s3)"
      and r: "run [prog, src, dst] w = Some (EXIT_SUCCESS, s')"
      and fs: "files s' = files s3"
      and ev: "events s' = events s3 @ [EvClose src RB, EvClose dst WB]"
      and fr: "\<forall>p. p \<noteq> dst \<longrightarrow> files s3 p = files w p"
      by blast
    have d: "f_path ?sf \<noteq> f_path ?df" using assms(1) by simp
    from loop_copy [OF d, of ?s2] l obtain E where E: "events s3 = events ?s2 @ E"
      and c: "\<And>content. files ?s2 (f_path ?sf) = Some content \<Longrightarrow>
             files ?s2 (f_path ?df) = Some (take (f_pos ?sf) content) \<Longrightarrow>
             f_pos ?df = f_pos ?sf \<Longrightarrow> f_pos ?sf \<le> length content \<Longrightarrow>
             \<not> list_ex ev_failed E \<Longrightarrow> files s3 (f_path ?df) = Some content"
      by auto
    have "files s' dst = Some content \<and> files s' src = Some content" if ok: "\<not> io_failed s'"
    proof -
      have okE: "\<not> list_ex ev_failed E"
        using ok unfolding io_failed_def ev E by (simp add: list_ex_append)
      have "files s3 (f_path ?df) = Some content"
        by (rule c) (use assms okE in \<open>simp_all add: start_simps\<close>)
      then show ?thesis using fs fr assms by simp
    qed
    with r show ?thesis by blast
  qed
qed



text \<open>
  The definitions to unfold when a run is evaluated on a concrete world.
\<close>

lemmas run_eval =
  run_def main_def start_def backup_file_def fopen_def open_error_def fclose_def fread_def
  fwrite_def perror_def sizeof_buffer_def copy_loop.simps contents_def deliverable_def
  write_at_def EXIT_SUCCESS_def EXIT_FAILURE_def Let_def

lemmas observe = exit_status_def final_def file_at_def io_failed_def bytes_read_def
  bytes_requested_def bytes_written_def

subsection \<open>The claims\<close>







text \<open>
  C3 does not hold as stated. On a device that fails after two bytes of a file of three,
  \<open>fread\<close> delivers 2 bytes with the error indicator set and then 0 bytes; the loop
  ends as at the end of the file, stderr stays empty, the success line is printed and
  the exit status is 0, with two of three bytes in the destination.
\<close>

theorem C3_counterexample:
  "exit_status (run [''backup'', ''a'', ''b''] world_bad_sector) = Some 0 \<and>
   final io_failed (run [''backup'', ''a'', ''b''] world_bad_sector) = Some True \<and>
   final events (run [''backup'', ''a'', ''b''] world_bad_sector) =
     Some [EvOpen ''a'' RB None, EvOpen ''b'' WB None, EvRead ''a'' 1024 2 True,
           EvWrite ''b'' 2 2, EvRead ''a'' 1024 0 True, EvClose ''a'' RB, EvClose ''b'' WB] \<and>
   final stderr (run [''backup'', ''a'', ''b''] world_bad_sector) = Some [] \<and>
   final stdout (run [''backup'', ''a'', ''b''] world_bad_sector)
     = Some (''Backup successful from a to b'' @ [CHR 0x0A]) \<and>
   final (file_at ''b'') (run [''backup'', ''a'', ''b''] world_bad_sector) = Some (Some [1, 2])"
  by (simp add: run_eval observe world_bad_sector_def)

text \<open>
  C3, as the code has it: every invocation ends. When the source cannot be opened the
  exit status is \<open>EXIT_FAILURE\<close> and stderr names the source-open phase and the system
  error; when the source opens and the destination does not, the same with the
  destination-open phase; in both cases no success line is printed. When both open, the
  success line is printed and the exit status is \<open>EXIT_SUCCESS\<close>, whatever the reads
  and writes did.
\<close>

theorem C3_failure_report:
  "\<exists>c s'. run [prog, src, dst] w = Some (c, s') \<and>
     (\<forall>e. open_error src RB w = Some e \<longrightarrow>
        c = EXIT_FAILURE \<and> stdout s' = [] \<and>
        stderr s' = ''Failed to open source file: '' @ strerror (Some e) @ [CHR 0x0A]) \<and>
     (\<forall>e. open_error src RB w = None \<and> open_error dst WB w = Some e \<longrightarrow>
        c = EXIT_FAILURE \<and> stdout s' = [] \<and>
        stderr s' = ''Failed to open destination file: '' @ strerror (Some e) @ [CHR 0x0A]) \<and>
     (open_error src RB w = None \<and> open_error dst WB w = None \<longrightarrow>
        c = EXIT_SUCCESS \<and> stderr s' = [] \<and>
        stdout s' = ''Backup successful from '' @ src @ '' to '' @ dst @ [CHR 0x0A])"
proof (cases "open_error src RB w")
  case (Some e)
  show ?thesis unfolding run_source_fails [OF Some] using Some by (simp add: start_simps)
next
  case None
  show ?thesis
  proof (cases "open_error dst WB w")
    case (Some e)
    show ?thesis unfolding run_destination_fails [OF None Some] using None Some
      by (simp add: start_simps)
  next
    case None2: None
    from run_copy [OF None None2, of prog] None None2 show ?thesis by auto
  qed
qed

text \<open>
  The theorem above at three concrete runs, one for each of its three cases.
\<close>

theorem C3_failure_report_witness:
  "open_error ''missing'' RB world_one = Some ENOENT \<and>
   exit_status (run [''backup'', ''missing'', ''b''] world_one) = Some 1 \<and>
   final stderr (run [''backup'', ''missing'', ''b''] world_one)
     = Some (''Failed to open source file: No such file or directory'' @ [CHR 0x0A]) \<and>
   open_error ''a'' RB world_readonly = None \<and> open_error ''b'' WB world_readonly = Some EACCES \<and>
   exit_status (run [''backup'', ''a'', ''b''] world_readonly) = Some 1 \<and>
   final stderr (run [''backup'', ''a'', ''b''] world_readonly)
     = Some (''Failed to open destination file: Permission denied'' @ [CHR 0x0A]) \<and>
   open_error ''a'' RB world_one = None \<and> open_error ''b'' WB world_one = None \<and>
   exit_status (run [''backup'', ''a'', ''b''] world_one) = Some 0 \<and>
   final stdout (run [''backup'', ''a'', ''b''] world_one)
     = Some (''Backup successful from a to b'' @ [CHR 0x0A])"
proof -
  have h1: "open_error ''missing'' RB world_one = Some ENOENT"
    by (simp add: open_error_def world_one_def)
  have h2: "open_error ''a'' RB world_readonly = None" "open_error ''b'' WB world_readonly = Some EACCES"
    by (simp_all add: open_error_def world_readonly_def)
  have h3: "open_error ''a'' RB world_one = None" "open_error ''b'' WB world_one = None"
    by (simp_all add: open_error_def world_one_def)
  from C3_failure_report [of "''backup''" "''missing''" "''b''" world_one] h1
  have a: "exit_status (run [''backup'', ''missing'', ''b''] world_one) = Some 1 \<and>
     final stderr (run [''backup'', ''missing'', ''b''] world_one)
       = Some (''Failed to open source file: No such file or directory'' @ [CHR 0x0A])"
    by (auto simp: observe EXIT_FAILURE_def)
  from C3_failure_report [of "''backup''" "''a''" "''b''" world_readonly] h2
  have b: "exit_status (run [''backup'', ''a'', ''b''] world_readonly) = Some 1 \<and>
     final stderr (run [''backup'', ''a'', ''b''] world_readonly)
       = Some (''Failed to open destination file: Permission denied'' @ [CHR 0x0A])"
    by (auto simp: observe EXIT_FAILURE_def)
  from C3_failure_report [of "''backup''" "''a''" "''b''" world_one] h3
  have c: "exit_status (run [''backup'', ''a'', ''b''] world_one) = Some 0 \<and>
     final stdout (run [''backup'', ''a'', ''b''] world_one)
       = Some (''Backup successful from a to b'' @ [CHR 0x0A])"
    by (auto simp: observe EXIT_SUCCESS_def)
  from h1 h2 h3 a b c show ?thesis by blast
qed

text \<open>
  C4: when the source cannot be opened (no such file, or opening it is refused), the
  program ends with \<open>EXIT_FAILURE\<close>, which is not zero; stderr holds the source-open
  message with the text of the error; nothing is printed on stdout; no file is created
  or changed, and the only library call on a file is the failed \<open>fopen\<close>.
\<close>

theorem C4_source_open_failure:
  assumes "open_error src RB w = Some e"
  shows "\<exists>s'. run [prog, src, dst] w = Some (EXIT_FAILURE, s') \<and> EXIT_FAILURE \<noteq> 0 \<and>
           stderr s' = ''Failed to open source file: '' @ strerror (Some e) @ [CHR 0x0A] \<and>
           stdout s' = [] \<and> files s' = files w \<and> events s' = [EvOpen src RB (Some e)]"
  unfolding run_source_fails [OF assms]
  by (simp add: start_simps EXIT_FAILURE_def)

text \<open>
  The theorem above at a concrete world, with its hypotheses checked there.
\<close>

theorem C4_source_open_failure_witness:
  "open_error ''missing'' RB world_one = Some ENOENT \<and>
   (\<exists>s'. run [''backup'', ''missing'', ''b''] world_one = Some (1, s') \<and>
      stderr s' = ''Failed to open source file: No such file or directory'' @ [CHR 0x0A] \<and>
      files s' ''b'' = None)"
proof -
  have h: "open_error ''missing'' RB world_one = Some ENOENT"
    by (simp add: open_error_def world_one_def)
  have f: "files world_one ''b'' = None"
    by (simp add: world_one_def)
  from C4_source_open_failure [OF h, of "''backup''" "''b''"] h f show ?thesis
    by (auto simp: EXIT_FAILURE_def)
qed

text \<open>
  C5: when the source opens and the destination cannot be opened, the program ends
  with \<open>EXIT_FAILURE\<close>; stderr holds the destination-open message with the text of
  the error; the source stream is closed again before the exit (no stream is left open,
  and the last event is its \<open>fclose\<close>); no file, the source included, is changed.
\<close>

theorem C5_destination_open_failure:
  assumes "open_error src RB w = None" and "open_error dst WB w = Some e"
  shows "\<exists>s'. run [prog, src, dst] w = Some (EXIT_FAILURE, s') \<and> EXIT_FAILURE \<noteq> 0 \<and>
           stderr s' = ''Failed to open destination file: '' @ strerror (Some e) @ [CHR 0x0A] \<and>
           stdout s' = [] \<and> opened s' = [] \<and>
           events s' = [EvOpen src RB None, EvOpen dst WB (Some e), EvClose src RB] \<and>
           files s' = files w"
  unfolding run_destination_fails [OF assms]
  by (simp add: start_simps EXIT_FAILURE_def)

text \<open>
  The theorem above at a concrete world, with its hypotheses checked there.
\<close>

theorem C5_destination_open_failure_witness:
  "open_error ''a'' RB world_readonly = None \<and> open_error ''b'' WB world_readonly = Some EACCES \<and>
   (\<exists>s'. run [''backup'', ''a'', ''b''] world_readonly = Some (1, s') \<and>
      stderr s' = ''Failed to open destination file: Permission denied'' @ [CHR 0x0A] \<and>
      opened s' = [] \<and> files s' ''a'' = Some [1, 2, 3] \<and> files s' ''b'' = None)"
proof -
  have h1: "open_error ''a'' RB world_readonly = None"
    by (simp add: open_error_def world_readonly_def)
  have h2: "open_error ''b'' WB world_readonly = Some EACCES"
    by (simp add: open_error_def world_readonly_def)
  have f: "files world_readonly ''a'' = Some [1, 2, 3]" "files world_readonly ''b'' = None"
    by (simp_all add: world_readonly_def)
  from C5_destination_open_failure [OF h1 h2, of "''backup''"] h1 h2 f show ?thesis
    by (auto simp: EXIT_FAILURE_def)
qed

text \<open>
  C6: with \<open>argc \<noteq> 3\<close>, that is with any number of arguments after the program name
  other than two, the program prints the usage line on stderr, ends with
  \<open>EXIT_FAILURE\<close> and calls no library function on a file: no event, no stream
  opened, every file as it was.
\<close>

theorem C6_usage_error:
  assumes "length argv \<noteq> 3"
  shows "\<exists>s'. run argv w = Some (EXIT_FAILURE, s') \<and> EXIT_FAILURE \<noteq> 0 \<and>
           stderr s' = ''Usage: '' @ argv0 argv @ '' <source_file> <destination_file>'' @ [CHR 0x0A] \<and>
           stdout s' = [] \<and> events s' = [] \<and> opened s' = [] \<and> files s' = files w"
  unfolding run_usage [OF assms]
  by (simp add: start_simps EXIT_FAILURE_def)

text \<open>
  The theorem above at a concrete world, with its hypotheses checked there.
\<close>

theorem C6_usage_error_witness:
  "length [''backup'', ''a''] \<noteq> 3 \<and>
   (\<exists>s'. run [''backup'', ''a''] world_one = Some (1, s') \<and>
      stderr s' = ''Usage: backup <source_file> <destination_file>'' @ [CHR 0x0A] \<and>
      events s' = [] \<and> files s' ''a'' = Some [1, 2, 3])"
proof -
  have h: "length [''backup'', ''a''] \<noteq> 3" by simp
  have f: "files world_one ''a'' = Some [1, 2, 3]" by (simp add: world_one_def)
  from C6_usage_error [OF h, of world_one] f show ?thesis
    by (auto simp: EXIT_FAILURE_def argv0_def)
qed

text \<open>
  C7: when the destination exists with contents longer than the source's, the
  invocation ends; the destination is empty when the loop is entered (truncated by
  \<open>fopen\<close>); and when none of the library calls failed, the destination holds exactly
  the bytes of the source, so its length is the source's length.
\<close>

theorem C7_overwrite:
  assumes "files w src = Some content" and "files w dst = Some old"
    and "length content < length old"
  shows "\<exists>c s'. run [prog, src, dst] w = Some (c, s') \<and>
     (\<forall>sf df s0. loop_entry src dst (start w) = Some (sf, df, s0) \<longrightarrow> files s0 dst = Some []) \<and>
     (\<not> io_failed s' \<longrightarrow>
        files s' dst = Some content \<and> length (contents s' dst) = length content)"
proof -
  have ne: "src \<noteq> dst" using assms by auto
  have en: "files s0 dst = Some []" if "loop_entry src dst (start w) = Some (sf, df, s0)" for sf df s0
  proof (cases "open_error src RB w")
    case (Some e)
    with that show ?thesis by (simp add: loop_entry_None)
  next
    case None
    show ?thesis
    proof (cases "open_error dst WB w")
      case (Some e)
      with None that show ?thesis by (simp add: loop_entry_None)
    next
      case None2: None
      from that show ?thesis unfolding loop_entry_ok [OF None None2] by auto
    qed
  qed
  from copy_round_trip [OF ne assms(1), of prog] en show ?thesis
    by (auto simp: contents_def)
qed

text \<open>
  The theorem above at a concrete world, with its hypotheses checked there.
\<close>

theorem C7_overwrite_witness:
  "files world_existing ''a'' = Some [1, 2, 3] \<and> files world_existing ''b'' = Some [9, 9, 9, 9, 9] \<and>
   length [1, 2, 3 :: byte] < length [9, 9, 9, 9, 9 :: byte] \<and>
   final io_failed (run [''backup'', ''a'', ''b''] world_existing) = Some False \<and>
   final (file_at ''b'') (run [''backup'', ''a'', ''b''] world_existing) = Some (Some [1, 2, 3])"
proof -
  have h: "files world_existing ''a'' = Some [1, 2, 3]" "files world_existing ''b'' = Some [9, 9, 9, 9, 9]"
    "length [1, 2, 3 :: byte] < length [9, 9, 9, 9, 9 :: byte]"
    by (simp_all add: world_existing_def)
  have e: "final events (run [''backup'', ''a'', ''b''] world_existing) =
     Some [EvOpen ''a'' RB None, EvOpen ''b'' WB None, EvRead ''a'' 1024 3 False,
           EvWrite ''b'' 3 3, EvRead ''a'' 1024 0 False, EvClose ''a'' RB, EvClose ''b'' WB]"
    by (simp add: run_eval observe world_existing_def)
  from C7_overwrite [OF h, of "''backup''"] h e show ?thesis
    by (auto simp: observe)
qed




text \<open>
  C9: every invocation with a source and a destination argument ends; when none of its
  library calls failed (both files opened, no read error, no short write), the exit
  status is \<open>EXIT_SUCCESS\<close>, which is 0, and stdout holds the success line with both
  paths in it.
\<close>

theorem C9_success_report:
  "\<exists>c s'. run [prog, src, dst] w = Some (c, s') \<and>
     (\<not> io_failed s' \<longrightarrow>
        c = EXIT_SUCCESS \<and> EXIT_SUCCESS = 0 \<and>
        stdout s' = ''Backup successful from '' @ src @ '' to '' @ dst @ [CHR 0x0A])"
proof (cases "open_error src RB w")
  case (Some e)
  show ?thesis unfolding run_source_fails [OF Some] by (simp add: io_failed_def)
next
  case None
  show ?thesis
  proof (cases "open_error dst WB w")
    case (Some e)
    show ?thesis unfolding run_destination_fails [OF None Some] by (simp add: io_failed_def)
  next
    case None2: None
    from run_copy [OF None None2, of prog] show ?thesis
      by (auto simp: EXIT_SUCCESS_def)
  qed
qed

text \<open>
  The theorem above at a concrete world, with its hypotheses checked there.
\<close>

theorem C9_success_report_witness:
  "exit_status (run [''backup'', ''a'', ''b''] world_one) = Some 0 \<and>
   final io_failed (run [''backup'', ''a'', ''b''] world_one) = Some False \<and>
   final stdout (run [''backup'', ''a'', ''b''] world_one)
     = Some (''Backup successful from a to b'' @ [CHR 0x0A])"
proof -
  have e: "final events (run [''backup'', ''a'', ''b''] world_one) =
     Some [EvOpen ''a'' RB None, EvOpen ''b'' WB None, EvRead ''a'' 1024 3 False,
           EvWrite ''b'' 3 3, EvRead ''a'' 1024 0 False, EvClose ''a'' RB, EvClose ''b'' WB]"
    by (simp add: run_eval observe world_one_def)
  from C9_success_report [of "''backup''" "''a''" "''b''" world_one] e show ?thesis
    by (auto simp: observe EXIT_SUCCESS_def)
qed



end
